theory Spec2Isabelle
  imports Complex_Main "HOL-Library.Char_ord" "HOL-Library.List_Lexorder"
begin

section \<open>Python values\<close>

text \<open>
  Python strings are modelled as \<^typ>\<open>string\<close>, one \<^typ>\<open>char\<close> per code point, for the
  code points 0 to 255. On this range the character classes used by the source
  (\<^verbatim>\<open>\s\<close>, \<^verbatim>\<open>\d\<close>, \<^verbatim>\<open>str.strip\<close>, \<^verbatim>\<open>str.splitlines\<close>, \<^verbatim>\<open>str.lower\<close> on ASCII letters)
  are modelled exactly. The text handed to the compression codec is modelled separately
  as a list of arbitrary code points, see the section on the ScaleDown client.
\<close>

datatype pyfloat = Finite rat | PosInf | NegInf | NaN

text \<open>A value produced by \<^verbatim>\<open>json.load\<close>; a dict keeps its items in file order.\<close>

datatype json =
    JNull
  | JBool bool
  | JInt int
  | JFloat pyfloat
  | JStr string
  | JList "json list"
  | JDict "(string \<times> json) list"

datatype py_error =
    ValueError
  | ZeroDivisionError
  | TypeError
  | AttributeError
  | UnicodeEncodeError
  | UnicodeDecodeError
  | ZlibError
  | Base64Error
  | OtherError

text \<open>Python truthiness, as used by \<^verbatim>\<open>or\<close>, \<^verbatim>\<open>not\<close> and \<^verbatim>\<open>if\<close>.\<close>

fun truthy :: "json \<Rightarrow> bool" where
  "truthy JNull = False"
| "truthy (JBool b) = b"
| "truthy (JInt i) = (i \<noteq> 0)"
| "truthy (JFloat f) = (f \<noteq> Finite 0)"
| "truthy (JStr s) = (s \<noteq> [])"
| "truthy (JList xs) = (xs \<noteq> [])"
| "truthy (JDict d) = (d \<noteq> [])"

text \<open>\<^verbatim>\<open>a or b\<close> on values.\<close>

definition por :: "json \<Rightarrow> json \<Rightarrow> json" where
  "por a b = (if truthy a then a else b)"

text \<open>\<^verbatim>\<open>d.get(k)\<close>: the value, or \<^verbatim>\<open>None\<close> when the key is missing.\<close>

definition dget :: "(string \<times> json) list \<Rightarrow> string \<Rightarrow> json" where
  "dget d k = (case map_of d k of None \<Rightarrow> JNull | Some v \<Rightarrow> v)"

section \<open>Python string operations\<close>

definition code :: "char \<Rightarrow> nat" where
  "code c = of_char c"

text \<open>\<^verbatim>\<open>str.isspace\<close> of one character, which is also the class \<^verbatim>\<open>\s\<close> of \<^verbatim>\<open>re\<close>.\<close>

definition is_space :: "char \<Rightarrow> bool" where
  "is_space c =
     ((9 \<le> code c \<and> code c \<le> 13) \<or> (28 \<le> code c \<and> code c \<le> 32) \<or>
      code c = 133 \<or> code c = 160)"

text \<open>The class \<^verbatim>\<open>\d\<close>.\<close>

definition is_digit :: "char \<Rightarrow> bool" where
  "is_digit c = (48 \<le> code c \<and> code c \<le> 57)"

text \<open>The class \<^verbatim>\<open>[a-zA-Z]\<close>.\<close>

definition is_alpha :: "char \<Rightarrow> bool" where
  "is_alpha c = ((65 \<le> code c \<and> code c \<le> 90) \<or> (97 \<le> code c \<and> code c \<le> 122))"

text \<open>The class \<^verbatim>\<open>[ \t]\<close>.\<close>

definition is_blank :: "char \<Rightarrow> bool" where
  "is_blank c = (code c = 32 \<or> code c = 9)"

text \<open>The class \<^verbatim>\<open>.\<close> (without DOTALL): anything but a line feed.\<close>

definition is_dot :: "char \<Rightarrow> bool" where
  "is_dot c = (code c \<noteq> 10)"

definition lstrip :: "string \<Rightarrow> string" where
  "lstrip s = dropWhile is_space s"

definition rstrip :: "string \<Rightarrow> string" where
  "rstrip s = rev (dropWhile is_space (rev s))"

text \<open>\<^verbatim>\<open>s.strip()\<close>\<close>

definition strip :: "string \<Rightarrow> string" where
  "strip s = rstrip (lstrip s)"

text \<open>\<^verbatim>\<open>s.rstrip(c)\<close> and \<^verbatim>\<open>s.strip(c)\<close> for a single character \<^verbatim>\<open>c\<close>.\<close>

definition rstrip_char :: "char \<Rightarrow> string \<Rightarrow> string" where
  "rstrip_char c s = rev (dropWhile (\<lambda>x. x = c) (rev s))"

definition strip_char :: "char \<Rightarrow> string \<Rightarrow> string" where
  "strip_char c s = rstrip_char c (dropWhile (\<lambda>x. x = c) s)"

text \<open>\<^verbatim>\<open>s.lower()\<close> of one character.\<close>

definition lower_char :: "char \<Rightarrow> char" where
  "lower_char c =
     (if (65 \<le> code c \<and> code c \<le> 90) \<or> (192 \<le> code c \<and> code c \<le> 222 \<and> code c \<noteq> 215)
      then char_of (code c + 32) else c)"

definition lower :: "string \<Rightarrow> string" where
  "lower s = map lower_char s"

text \<open>\<^verbatim>\<open>s.startswith(p)\<close>\<close>

definition startswith :: "string \<Rightarrow> string \<Rightarrow> bool" where
  "startswith s p = (take (length p) s = p)"

text \<open>\<^verbatim>\<open>p in s\<close> for strings.\<close>

fun contains :: "string \<Rightarrow> string \<Rightarrow> bool" where
  "contains [] p = (p = [])"
| "contains (c # cs) p = (startswith (c # cs) p \<or> contains cs p)"

text \<open>
  \<^verbatim>\<open>s.split(sep)\<close> for a separator of at least one character, written \<open>c # sep\<close>;
  \<open>acc\<close> holds the current piece, reversed.
\<close>

function split_from :: "char \<Rightarrow> string \<Rightarrow> string \<Rightarrow> string \<Rightarrow> string list" where
  "split_from c sep acc [] = [rev acc]"
| "split_from c sep acc (x # xs) =
     (if x = c \<and> startswith xs sep
      then rev acc # split_from c sep [] (drop (length sep) xs)
      else split_from c sep (x # acc) xs)"
  by pat_completeness auto
termination
  by (relation "measure (\<lambda>(c, sep, acc, s). length s)") auto

definition split :: "string \<Rightarrow> string \<Rightarrow> string list" where
  "split s sep = (case sep of [] \<Rightarrow> [] | c # cs \<Rightarrow> split_from c cs [] s)"

text \<open>\<^verbatim>\<open>s.split(c, 1)\<close> when \<^verbatim>\<open>c\<close> occurs in \<^verbatim>\<open>s\<close>: the two sides of the first \<^verbatim>\<open>c\<close>.\<close>

definition split_first :: "char \<Rightarrow> string \<Rightarrow> string \<times> string" where
  "split_first c s = (takeWhile (\<lambda>x. x \<noteq> c) s, drop 1 (dropWhile (\<lambda>x. x \<noteq> c) s))"

text \<open>The line boundaries of \<^verbatim>\<open>str.splitlines\<close> among the code points below 256.\<close>

definition is_linebreak :: "char \<Rightarrow> bool" where
  "is_linebreak c =
     ((10 \<le> code c \<and> code c \<le> 13) \<or> (28 \<le> code c \<and> code c \<le> 30) \<or> code c = 133)"

text \<open>\<^verbatim>\<open>s.splitlines()\<close>: a carriage return followed by a line feed is one boundary.\<close>

fun splitlines_from :: "string \<Rightarrow> string \<Rightarrow> string list" where
  "splitlines_from acc [] = (if acc = [] then [] else [rev acc])"
| "splitlines_from acc [x] =
     (if is_linebreak x then [rev acc] else [rev (x # acc)])"
| "splitlines_from acc (x # y # ys) =
     (if code x = 13 \<and> code y = 10 then rev acc # splitlines_from [] ys
      else if is_linebreak x then rev acc # splitlines_from [] (y # ys)
      else splitlines_from (x # acc) (y # ys))"

definition splitlines :: "string \<Rightarrow> string list" where
  "splitlines s = splitlines_from [] s"

section \<open>Regular expressions with backtracking\<close>

text \<open>
  The fragment of \<^verbatim>\<open>re\<close> that \<^verbatim>\<open>ING_RE\<close> uses: character classes, greedy \<^verbatim>\<open>*\<close> and
  \<^verbatim>\<open>+\<close> on a class, sequence, alternation, greedy \<^verbatim>\<open>?\<close>, named groups and \<^verbatim>\<open>$\<close>.
\<close>

datatype regex =
    Cls "char \<Rightarrow> bool"
  | StarC "char \<Rightarrow> bool"
  | PlusC "char \<Rightarrow> bool"
  | Seq regex regex
  | Alt regex regex
  | Opt regex
  | Grp string regex
  | Eos

text \<open>
  A matcher state is the text still to read and the groups captured so far (latest
  first). \<open>rmatch r st\<close> lists the states in which a match of \<open>r\<close> from \<open>st\<close> can
  end, in the order in which the backtracking matcher tries them: a greedy repetition
  tries the longest run first, an alternation its left branch first, \<^verbatim>\<open>?\<close> the
  match before the skip.
\<close>

type_synonym mstate = "string \<times> (string \<times> string) list"

text \<open>The ways to read a run of characters of a class, the longest first.\<close>

fun star_rests :: "(char \<Rightarrow> bool) \<Rightarrow> string \<Rightarrow> string list" where
  "star_rests p [] = [[]]"
| "star_rests p (c # cs) = (if p c then star_rests p cs @ [c # cs] else [c # cs])"

definition cls_step :: "(char \<Rightarrow> bool) \<Rightarrow> mstate \<Rightarrow> mstate list" where
  "cls_step p st =
     (case fst st of [] \<Rightarrow> [] | c # cs \<Rightarrow> (if p c then [(cs, snd st)] else []))"

definition star_step :: "(char \<Rightarrow> bool) \<Rightarrow> mstate \<Rightarrow> mstate list" where
  "star_step p st = map (\<lambda>r. (r, snd st)) (star_rests p (fst st))"

definition capture :: "string \<Rightarrow> mstate \<Rightarrow> mstate \<Rightarrow> mstate" where
  "capture n st st' =
     (fst st', (n, take (length (fst st) - length (fst st')) (fst st)) # snd st')"

text \<open>\<^verbatim>\<open>$\<close> matches at the end of the text and before a line feed that ends the text.\<close>

definition eos_step :: "mstate \<Rightarrow> mstate list" where
  "eos_step st = (if fst st = [] \<or> fst st = [char_of (10::nat)] then [st] else [])"

primrec rmatch :: "regex \<Rightarrow> mstate \<Rightarrow> mstate list" where
  "rmatch (Cls p) = cls_step p"
| "rmatch (StarC p) = star_step p"
| "rmatch (PlusC p) = (\<lambda>st. concat (map (star_step p) (cls_step p st)))"
| "rmatch (Seq a b) = (\<lambda>st. concat (map (rmatch b) (rmatch a st)))"
| "rmatch (Alt a b) = (\<lambda>st. rmatch a st @ rmatch b st)"
| "rmatch (Opt a) = (\<lambda>st. rmatch a st @ [st])"
| "rmatch (Grp n a) = (\<lambda>st. map (capture n st) (rmatch a st))"
| "rmatch Eos = eos_step"

text \<open>
  \<^verbatim>\<open>pattern.match(s)\<close>: the groups of the first match found, \<^verbatim>\<open>None\<close> when there is
  none.
\<close>

definition re_match :: "regex \<Rightarrow> string \<Rightarrow> (string \<times> string) list option" where
  "re_match r s = (case rmatch r (s, []) of [] \<Rightarrow> None | st # _ \<Rightarrow> Some (snd st))"

text \<open>\<^verbatim>\<open>m.group(n)\<close>\<close>

definition m_group :: "(string \<times> string) list \<Rightarrow> string \<Rightarrow> string option" where
  "m_group m n = map_of m n"

section \<open>Ingredient parsing (ingest.py)\<close>

text \<open>The value of a string of decimal digits.\<close>

definition digits_value :: "string \<Rightarrow> nat" where
  "digits_value s = foldl (\<lambda>a c. 10 * a + (code c - 48)) 0 s"

definition all_digits :: "string \<Rightarrow> bool" where
  "all_digits s = (s \<noteq> [] \<and> list_all is_digit s)"

text \<open>
  The conversions \<^verbatim>\<open>int(s)\<close>, \<^verbatim>\<open>Fraction(s)\<close> and \<^verbatim>\<open>float(s)\<close>, on the spellings that
  the quantity group of \<^verbatim>\<open>ING_RE\<close> can hand to them: unsigned decimal digits, with one
  \<^verbatim>\<open>/\<close> or one \<^verbatim>\<open>.\<close>. The signs, exponents, underscores and surrounding blanks that
  Python accepts too are not modelled; the model answers \<open>ValueError\<close> there. A
  quantity is the exact rational value; \<^verbatim>\<open>float\<close> rounds it to the nearest double, which
  is not modelled.
\<close>

definition py_int :: "string \<Rightarrow> py_error + int" where
  "py_int s = (if all_digits s then Inr (int (digits_value s)) else Inl ValueError)"

definition decimal_value :: "string \<Rightarrow> string \<Rightarrow> rat" where
  "decimal_value ip fp =
     of_nat (digits_value ip) + of_nat (digits_value fp) / of_nat (10 ^ length fp)"

definition py_decimal :: "string \<Rightarrow> py_error + rat" where
  "py_decimal s =
     (let ip = takeWhile (\<lambda>x. x \<noteq> CHR ''.'') s;
          rest = dropWhile (\<lambda>x. x \<noteq> CHR ''.'') s
      in if rest = [] then (if all_digits ip then Inr (of_nat (digits_value ip)) else Inl ValueError)
         else if list_all is_digit ip \<and> list_all is_digit (tl rest) \<and> (ip \<noteq> [] \<or> tl rest \<noteq> [])
         then Inr (decimal_value ip (tl rest))
         else Inl ValueError)"

definition py_float :: "string \<Rightarrow> py_error + rat" where
  "py_float s = py_decimal s"

definition py_fraction :: "string \<Rightarrow> py_error + rat" where
  "py_fraction s =
     (if CHR ''/'' \<in> set s
      then (let (n, d) = split_first CHR ''/'' s
            in if all_digits n \<and> all_digits d
               then (if digits_value d = 0 then Inl ZeroDivisionError
                     else Inr (of_nat (digits_value n) / of_nat (digits_value d)))
               else Inl ValueError)
      else py_decimal s)"

text \<open>The body of the \<^verbatim>\<open>try\<close> block of \<^verbatim>\<open>parse_quantity\<close>, on the stripped string.\<close>

definition parse_quantity_try :: "string \<Rightarrow> py_error + rat" where
  "parse_quantity_try q =
     (if CHR '' '' \<in> set q \<and> CHR ''/'' \<in> set q
      then (let (whole, frac) = split_first CHR '' '' q
            in case py_int whole of
                 Inl e \<Rightarrow> Inl e
               | Inr w \<Rightarrow> (case py_fraction frac of
                             Inl e \<Rightarrow> Inl e
                           | Inr f \<Rightarrow> Inr (of_int w + f)))
      else if CHR ''/'' \<in> set q then py_fraction q
      else py_float q)"

text \<open>
  \<^verbatim>\<open>parse_quantity\<close>: \<^verbatim>\<open>except Exception: return None\<close> turns every error of the body
  into \<^verbatim>\<open>None\<close>.
\<close>

definition parse_quantity :: "string \<Rightarrow> py_error + rat option" where
  "parse_quantity qstr =
     (if qstr = [] then Inr None
      else (case parse_quantity_try (strip qstr) of
              Inl e \<Rightarrow> Inr None
            | Inr v \<Rightarrow> Inr (Some v)))"

definition UNIT_MAP :: "(string \<times> string) list" where
  "UNIT_MAP =
     [(''tbsp'', ''tablespoon''), (''tbs'', ''tablespoon''), (''tablespoons'', ''tablespoon''),
      (''tbsp.'', ''tablespoon''),
      (''tsp'', ''teaspoon''), (''tsps'', ''teaspoon''), (''teaspoons'', ''teaspoon''),
      (''cup'', ''cup''), (''cups'', ''cup''),
      (''g'', ''gram''), (''gram'', ''gram''), (''grams'', ''gram''),
      (''kg'', ''kilogram''),
      (''oz'', ''ounce''), (''ounce'', ''ounce''), (''ounces'', ''ounce''),
      (''lb'', ''pound''), (''pound'', ''pound''), (''pounds'', ''pound''),
      (''clove'', ''clove''), (''cloves'', ''clove''),
      (''slice'', ''slice''), (''slices'', ''slice'')]"

definition normalize_unit :: "string option \<Rightarrow> string option" where
  "normalize_unit u =
     (case u of
        None \<Rightarrow> None
      | Some t \<Rightarrow>
          (if t = [] then None
           else (let v = rstrip_char CHR ''.'' (strip (lower t))
                 in case map_of UNIT_MAP v of None \<Rightarrow> Some v | Some n \<Rightarrow> Some n)))"

text \<open>
  \<^verbatim>\<open>^\s*(?P<qty>\d+(?:[ \t]\d+\/\d+|\/\d+|\.\d+)?)?\s*(?P<unit>[a-zA-Z]+)?\s*(?P<name>.+)$\<close>
  (\<^verbatim>\<open>^\<close> holds at the start, where \<^verbatim>\<open>match\<close> begins).
\<close>

definition qty_re :: regex where
  "qty_re =
     Seq (PlusC is_digit)
       (Opt (Alt (Seq (Cls is_blank)
                    (Seq (PlusC is_digit) (Seq (Cls (\<lambda>c. c = CHR ''/'')) (PlusC is_digit))))
              (Alt (Seq (Cls (\<lambda>c. c = CHR ''/'')) (PlusC is_digit))
                   (Seq (Cls (\<lambda>c. c = CHR ''.'')) (PlusC is_digit)))))"

definition ING_RE :: regex where
  "ING_RE =
     Seq (StarC is_space)
       (Seq (Opt (Grp ''qty'' qty_re))
         (Seq (StarC is_space)
           (Seq (Opt (Grp ''unit'' (PlusC is_alpha)))
             (Seq (StarC is_space)
               (Seq (Grp ''name'' (PlusC is_dot)) Eos)))))"

record ingredient =
  raw :: string
  quantity :: "rat option"
  unit :: "string option"
  name :: string



definition parse_ingredient :: "string \<Rightarrow> py_error + ingredient" where
  "parse_ingredient ing_raw =
     (case re_match ING_RE ing_raw of
        None \<Rightarrow> Inr \<lparr>raw = ing_raw, quantity = None, unit = None, name = strip ing_raw\<rparr>
      | Some m \<Rightarrow>
          (let qty = m_group m ''qty'';
               unit_g = m_group m ''unit'';
               name_g = (case m_group m ''name'' of None \<Rightarrow> [] | Some n \<Rightarrow> n)
           in case (case qty of None \<Rightarrow> Inr None
                    | Some q \<Rightarrow> (if q = [] then Inr None else parse_quantity q)) of
                Inl e \<Rightarrow> Inl e
              | Inr qv \<Rightarrow>
                  Inr \<lparr>raw = ing_raw, quantity = qv, unit = normalize_unit unit_g,
                       name = strip name_g\<rparr>))"

section \<open>Library functions\<close>

text \<open>
  The functions of the Python library whose code is not part of the repository are
  parameters of the model: \<^verbatim>\<open>json.loads\<close> (an error stands for any exception it raises),
  \<^verbatim>\<open>json.dumps(v, ensure_ascii=False)\<close>, and \<^verbatim>\<open>str(v)\<close> for a value that is not a string.
\<close>

record pylib =
  json_loads :: "string \<Rightarrow> py_error + json"
  json_dumps :: "json \<Rightarrow> py_error + string"
  py_repr :: "json \<Rightarrow> string"

text \<open>\<^verbatim>\<open>str(v)\<close>: a string is returned as it is.\<close>

definition py_str :: "pylib \<Rightarrow> json \<Rightarrow> string" where
  "py_str L v = (case v of JStr s \<Rightarrow> s | _ \<Rightarrow> py_repr L v)"

section \<open>CSV cells (ingest.py)\<close>

text \<open>\<^verbatim>\<open>[p.strip() for p in parts if p.strip()]\<close>\<close>

definition stripped_parts :: "string list \<Rightarrow> string list" where
  "stripped_parts parts = map strip (filter (\<lambda>p. strip p \<noteq> []) parts)"

definition split_delimited_field :: "string \<Rightarrow> string list" where
  "split_delimited_field val =
     (if val = [] then []
      else if contains val ''||'' then stripped_parts (split val ''||'')
      else if CHR 0x0A \<in> set val then stripped_parts (splitlines val)
      else if CHR '';'' \<in> set val then stripped_parts (split val '';'')
      else if CHR ''|'' \<in> set val then stripped_parts (split val ''|'')
      else [strip val])"

text \<open>
  The \<^verbatim>\<open>try\<close> block of \<^verbatim>\<open>parse_csv_cell\<close>: \<open>Some\<close> the list it returns, \<open>None\<close> when control
  leaves the block without returning (no bracket, another JSON value, or an exception).
\<close>

definition parse_json_cell :: "pylib \<Rightarrow> string \<Rightarrow> string list option" where
  "parse_json_cell L v =
     (if startswith v ''['' \<or> startswith v ''{''
      then (case json_loads L v of
              Inl e \<Rightarrow> None
            | Inr (JList xs) \<Rightarrow> Some (map (py_str L) xs)
            | Inr (JDict d) \<Rightarrow>
                (case json_dumps L (JDict d) of Inl e \<Rightarrow> None | Inr t \<Rightarrow> Some [t])
            | Inr _ \<Rightarrow> None)
      else None)"

definition parse_csv_cell :: "pylib \<Rightarrow> string option \<Rightarrow> string list" where
  "parse_csv_cell L val =
     (case val of
        None \<Rightarrow> []
      | Some s \<Rightarrow>
          (if s = [] then []
           else (let v = strip s
                 in case parse_json_cell L v of
                      Some r \<Rightarrow> r
                    | None \<Rightarrow> split_delimited_field v)))"

section \<open>Record normalization (ingest.py)\<close>

text \<open>An element of the normalized ingredient list: a parsed string, or a value passed through.\<close>

datatype ing_item = Parsed ingredient | Passed json

record recipe =
  recipe_id :: string
  title :: json
  ingredients :: "ing_item list"
  steps :: json
  nutrition :: json
  source_url :: json

text \<open>\<^verbatim>\<open>v[:64]\<close>: strings and lists can be sliced, the other truthy values raise.\<close>

definition slice64 :: "json \<Rightarrow> py_error + json" where
  "slice64 v =
     (case v of
        JStr s \<Rightarrow> Inr (JStr (take 64 s))
      | JList xs \<Rightarrow> Inr (JList (take 64 xs))
      | _ \<Rightarrow> Inl TypeError)"

text \<open>
  The elements that \<^verbatim>\<open>for i in v\<close> visits: the elements of a list, the characters of a
  string, the keys of a dict; the other truthy values are not iterable.
\<close>

definition py_iter :: "json \<Rightarrow> py_error + json list" where
  "py_iter v =
     (case v of
        JList xs \<Rightarrow> Inr xs
      | JStr s \<Rightarrow> Inr (map (\<lambda>c. JStr [c]) s)
      | JDict d \<Rightarrow> Inr (map (\<lambda>kv. JStr (fst kv)) d)
      | _ \<Rightarrow> Inl TypeError)"

text \<open>\<^verbatim>\<open>parse_ingredient(i) if isinstance(i, str) else i\<close>, over the list.\<close>

fun parse_all :: "json list \<Rightarrow> py_error + ing_item list" where
  "parse_all [] = Inr []"
| "parse_all (i # rest) =
     (case (case i of
              JStr s \<Rightarrow> (case parse_ingredient s of Inl e \<Rightarrow> Inl e | Inr g \<Rightarrow> Inr (Parsed g))
            | _ \<Rightarrow> Inr (Passed i)) of
        Inl e \<Rightarrow> Inl e
      | Inr x \<Rightarrow> (case parse_all rest of Inl e \<Rightarrow> Inl e | Inr xs \<Rightarrow> Inr (x # xs)))"

text \<open>The second \<^verbatim>\<open>normalize_recipe\<close> of ingest.py, the one \<^verbatim>\<open>run\<close> calls.\<close>

definition normalize_recipe :: "pylib \<Rightarrow> json \<Rightarrow> py_error + recipe" where
  "normalize_recipe L r =
     (case r of
        JDict d \<Rightarrow>
          (case (if truthy (dget d ''id'') then Inr (dget d ''id'')
                 else if truthy (dget d ''url'') then Inr (dget d ''url'')
                 else slice64 (por (dget d ''title'') (JStr []))) of
             Inl e \<Rightarrow> Inl e
           | Inr rid \<Rightarrow>
               (case py_iter (por (dget d ''ingredients'') (JList [])) of
                  Inl e \<Rightarrow> Inl e
                | Inr ings \<Rightarrow>
                    (case parse_all ings of
                       Inl e \<Rightarrow> Inl e
                     | Inr parsed_ings \<Rightarrow>
                         Inr \<lparr>recipe_id = py_str L rid,
                              title = por (dget d ''title'') (JStr ''Untitled''),
                              ingredients = parsed_ings,
                              steps = por (dget d ''steps'') (JList []),
                              nutrition = por (dget d ''nutrition'') (JDict []),
                              source_url = por (dget d ''url'') (dget d ''source_url'')\<rparr>)))
      | _ \<Rightarrow> Inl AttributeError)"

section \<open>Ingestion pipeline (ingest.py)\<close>

text \<open>A row of \<^verbatim>\<open>csv.DictReader\<close>: the cells by header name.\<close>

type_synonym csv_row = "(string \<times> string) list"

text \<open>\<^verbatim>\<open>row.get(k)\<close>\<close>

definition row_get :: "csv_row \<Rightarrow> string \<Rightarrow> json" where
  "row_get row k = (case map_of row k of None \<Rightarrow> JNull | Some s \<Rightarrow> JStr s)"

text \<open>A cell value as the \<^verbatim>\<open>Optional[str]\<close> that \<^verbatim>\<open>parse_csv_cell\<close> takes.\<close>

definition as_cell :: "json \<Rightarrow> string option" where
  "as_cell v = (case v of JStr s \<Rightarrow> Some s | _ \<Rightarrow> None)"

definition str_list :: "string list \<Rightarrow> json" where
  "str_list xs = JList (map JStr xs)"

text \<open>The \<^verbatim>\<open>item\<close> dict that \<^verbatim>\<open>run\<close> builds from a CSV row, after the description fallback.\<close>

definition csv_item :: "pylib \<Rightarrow> csv_row \<Rightarrow> json" where
  "csv_item L row =
     (let title = por (por (por (row_get row ''title'') (row_get row ''recipe_title''))
                           (row_get row ''name'')) (row_get row ''headline'');
          steps_raw = por (por (por (row_get row ''steps'') (row_get row ''directions''))
                               (row_get row ''instructions'')) (row_get row ''description'');
          item_steps = str_list (parse_csv_cell L (as_cell steps_raw))
      in JDict
          [(''id'', por (por (row_get row ''id'') (row_get row ''url'')) title),
           (''title'', title),
           (''ingredients'',
              str_list (parse_csv_cell L (as_cell
                (por (por (row_get row ''ingredients'') (row_get row ''ingredient''))
                     (row_get row ''ingredients_list''))))),
           (''steps'',
              (if \<not> truthy item_steps \<and> truthy (row_get row ''description'')
               then JList [row_get row ''description''] else item_steps)),
           (''nutrition'',
              por (por (row_get row ''nutrition'') (row_get row ''nutrition_info'')) (JDict [])),
           (''source_url'',
              por (por (row_get row ''source_url'') (row_get row ''url'')) (row_get row ''source''))])"

text \<open>
  The raw directory as \<^verbatim>\<open>run\<close> sees it: the names that \<^verbatim>\<open>glob('*')\<close> yields, and for a
  name what \<^verbatim>\<open>json.load\<close> returns or raises, and the rows that \<^verbatim>\<open>csv.DictReader\<close> yields,
  with a flag telling whether reading raises after the last of these rows.
\<close>

record raw_dir =
  listing :: "string list"
  load_json :: "string \<Rightarrow> py_error + json"
  read_csv :: "string \<Rightarrow> csv_row list \<times> bool"

text \<open>\<^verbatim>\<open>p.suffix\<close>: from the last dot of the name, unless that dot is first or last.\<close>

definition suffix :: "string \<Rightarrow> string" where
  "suffix n =
     (let after = takeWhile (\<lambda>c. c \<noteq> CHR ''.'') (rev n)
      in if CHR ''.'' \<notin> set n \<or> after = [] \<or> Suc (length after) = length n then []
         else CHR ''.'' # rev after)"

text \<open>\<^verbatim>\<open>sample_limit and len(collected) >= sample_limit\<close>\<close>

definition limit_reached :: "int option \<Rightarrow> recipe list \<Rightarrow> bool" where
  "limit_reached sample_limit collected =
     (case sample_limit of
        None \<Rightarrow> False
      | Some n \<Rightarrow> n \<noteq> 0 \<and> n \<le> int (length collected))"

text \<open>How the loop over the records of one file ends.\<close>

datatype loop_end = Exhausted | Broke | Raised

text \<open>
  The loop over the records of one file; the state is \<^verbatim>\<open>collected\<close> and \<^verbatim>\<open>seen_ids\<close>.
  An exception of \<^verbatim>\<open>normalize_recipe\<close> leaves the loop with the state reached so far.
\<close>

fun add_records ::
  "pylib \<Rightarrow> int option \<Rightarrow> json list \<Rightarrow> recipe list \<times> string set \<Rightarrow>
     (recipe list \<times> string set) \<times> loop_end" where
  "add_records L limit [] st = (st, Exhausted)"
| "add_records L limit (r # rs) (collected, seen_ids) =
     (case normalize_recipe L r of
        Inl e \<Rightarrow> ((collected, seen_ids), Raised)
      | Inr nr \<Rightarrow>
          (if recipe_id nr \<in> seen_ids then add_records L limit rs (collected, seen_ids)
           else if limit_reached limit (collected @ [nr])
           then ((collected @ [nr], insert (recipe_id nr) seen_ids), Broke)
           else add_records L limit rs (collected @ [nr], insert (recipe_id nr) seen_ids)))"

text \<open>The records of one file, and whether reading the file raises after them.\<close>

definition file_records :: "pylib \<Rightarrow> raw_dir \<Rightarrow> string \<Rightarrow> (json list \<times> bool) option" where
  "file_records L d p =
     (if lower (suffix p) = ''.json''
      then Some (case load_json d p of
                   Inl e \<Rightarrow> ([], True)
                 | Inr (JList items) \<Rightarrow> (items, False)
                 | Inr v \<Rightarrow> ([v], False))
      else if lower (suffix p) = ''.csv''
      then Some (map (csv_item L) (fst (read_csv d p)), snd (read_csv d p))
      else None)"

text \<open>The loop over the files, in the order given.\<close>

fun scan_files ::
  "pylib \<Rightarrow> raw_dir \<Rightarrow> int option \<Rightarrow> string list \<Rightarrow> recipe list \<times> string set \<Rightarrow>
     recipe list \<times> string set" where
  "scan_files L d limit [] st = st"
| "scan_files L d limit (p # ps) st =
     (case file_records L d p of
        None \<Rightarrow> scan_files L d limit ps st
      | Some (items, fails) \<Rightarrow>
          (case add_records L limit items st of
             (st', Raised) \<Rightarrow> scan_files L d limit ps st'
           | (st', Broke) \<Rightarrow> st'
           | (st', Exhausted) \<Rightarrow>
               (if fails then scan_files L d limit ps st'
                else if limit_reached limit (fst st') then st'
                else scan_files L d limit ps st')))"

text \<open>\<^verbatim>\<open>run\<close>: the collection written to the output file.\<close>

definition run :: "pylib \<Rightarrow> raw_dir \<Rightarrow> int option \<Rightarrow> recipe list" where
  "run L d sample_limit = fst (scan_files L d sample_limit (sort (listing d)) ([], {}))"

text \<open>
  The records of one file that normalize without error: those before the first record on
  which \<^verbatim>\<open>normalize_recipe\<close> raises.
\<close>

fun normalized_prefix :: "pylib \<Rightarrow> json list \<Rightarrow> recipe list" where
  "normalized_prefix L [] = []"
| "normalized_prefix L (r # rs) =
     (case normalize_recipe L r of Inl e \<Rightarrow> [] | Inr nr \<Rightarrow> nr # normalized_prefix L rs)"

text \<open>A collection without its later records of an id already met: the first occurrence wins.\<close>

fun first_by_id :: "recipe list \<Rightarrow> recipe list" where
  "first_by_id [] = []"
| "first_by_id (r # rs) = r # first_by_id (filter (\<lambda>x. recipe_id x \<noteq> recipe_id r) rs)"

text \<open>The ids of a collection, and the records of a sequence whose id is not among \<open>S\<close>,
  each id at its first occurrence only.\<close>

definition ids :: "recipe list \<Rightarrow> string set" where
  "ids rs = set (map recipe_id rs)"

definition unseen :: "string set \<Rightarrow> recipe list \<Rightarrow> recipe list" where
  "unseen S rs = first_by_id (filter (\<lambda>x. recipe_id x \<notin> S) rs)"

text \<open>The records of the given files that normalize without error, in order.\<close>

definition scanned_of :: "pylib \<Rightarrow> raw_dir \<Rightarrow> string list \<Rightarrow> recipe list" where
  "scanned_of L d ps =
     concat (map (\<lambda>p. case file_records L d p of
                         None \<Rightarrow> []
                       | Some (items, fails) \<Rightarrow> normalized_prefix L items) ps)"

text \<open>The records that \<^verbatim>\<open>run\<close> normalizes without error, in scan order.\<close>

definition scanned :: "pylib \<Rightarrow> raw_dir \<Rightarrow> recipe list" where
  "scanned L d = scanned_of L d (sort (listing d))"

text \<open>A library whose \<^verbatim>\<open>json.loads\<close> knows the one text of the specification's example.\<close>

definition egg_flour_lib :: pylib where
  \<open>egg_flour_lib =
     \<lparr>json_loads = (\<lambda>s. if s = ''["egg","flour"]''
                          then Inr (JList [JStr ''egg'', JStr ''flour'']) else Inl ValueError),
      json_dumps = (\<lambda>v. Inl TypeError),
      py_repr = (\<lambda>v. [])\<rparr>\<close>

section \<open>ScaleDown client (scaledown\_client.py)\<close>

text \<open>
  The text handed to the client is a Python \<^verbatim>\<open>str\<close>: a list of code points, each below
  \<open>0x110000\<close>, lone surrogates included. Bytes are \<^typ>\<open>char\<close>s. The standard codecs are
  modelled from their definitions (UTF-8 after RFC 3629 with the strictness of CPython's
  decoder, base64 after RFC 4648 with the lenient decoder of \<^verbatim>\<open>binascii.a2b_base64\<close>);
  \<^verbatim>\<open>zlib\<close> is a parameter.
\<close>

type_synonym ustr = "nat list"

type_synonym bytes = "char list"

definition is_surrogate :: "nat \<Rightarrow> bool" where
  "is_surrogate cp = (0xD800 \<le> cp \<and> cp \<le> 0xDFFF)"

text \<open>The UTF-8 bytes of one code point; \<open>None\<close> where \<^verbatim>\<open>str.encode('utf-8')\<close> raises.\<close>

definition utf8_encode_cp :: "nat \<Rightarrow> bytes option" where
  "utf8_encode_cp cp =
     (if cp < 0x80 then Some [char_of cp]
      else if cp < 0x800 then Some [char_of (0xC0 + cp div 64), char_of (0x80 + cp mod 64)]
      else if cp < 0x10000 then
        (if is_surrogate cp then None
         else Some [char_of (0xE0 + cp div 4096), char_of (0x80 + cp div 64 mod 64),
                    char_of (0x80 + cp mod 64)])
      else if cp < 0x110000 then
        Some [char_of (0xF0 + cp div 262144), char_of (0x80 + cp div 4096 mod 64),
              char_of (0x80 + cp div 64 mod 64), char_of (0x80 + cp mod 64)]
      else None)"

fun utf8_encode_opt :: "ustr \<Rightarrow> bytes option" where
  "utf8_encode_opt [] = Some []"
| "utf8_encode_opt (cp # cps) =
     (case utf8_encode_cp cp of
        None \<Rightarrow> None
      | Some bs \<Rightarrow> (case utf8_encode_opt cps of None \<Rightarrow> None | Some rest \<Rightarrow> Some (bs @ rest)))"

text \<open>\<^verbatim>\<open>text.encode('utf-8')\<close>\<close>

definition utf8_encode :: "ustr \<Rightarrow> py_error + bytes" where
  "utf8_encode t = (case utf8_encode_opt t of None \<Rightarrow> Inl UnicodeEncodeError | Some b \<Rightarrow> Inr b)"




text \<open>
  The base64 alphabet: \<^verbatim>\<open>A\<close> to \<^verbatim>\<open>Z\<close> for 0 to 25, \<^verbatim>\<open>a\<close> to \<^verbatim>\<open>z\<close> for 26 to 51, \<^verbatim>\<open>0\<close> to \<^verbatim>\<open>9\<close>
  for 52 to 61, then \<^verbatim>\<open>+\<close> and \<^verbatim>\<open>/\<close>.
\<close>

definition b64_char :: "nat \<Rightarrow> char" where
  "b64_char n =
     (if n < 26 then char_of (65 + n)
      else if n < 52 then char_of (71 + n)
      else if n < 62 then char_of (n - 4)
      else if n = 62 then CHR ''+''
      else CHR ''/'')"


text \<open>\<^verbatim>\<open>base64.b64encode\<close>: three bytes give four characters, the last group is padded.\<close>

fun b64encode :: "bytes \<Rightarrow> bytes" where
  "b64encode [] = []"
| "b64encode [a] =
     [b64_char (code a div 4), b64_char (code a mod 4 * 16), CHR ''='', CHR ''='']"
| "b64encode [a, b] =
     [b64_char (code a div 4), b64_char (code a mod 4 * 16 + code b div 16),
      b64_char (code b mod 16 * 4), CHR ''='']"
| "b64encode (a # b # c # rest) =
     [b64_char (code a div 4), b64_char (code a mod 4 * 16 + code b div 16),
      b64_char (code b mod 16 * 4 + code c div 64), b64_char (code c mod 64)] @ b64encode rest"


text \<open>\<^verbatim>\<open>b64.decode('ascii')\<close> and \<^verbatim>\<open>s.encode('ascii')\<close>: the same characters, all below 128.\<close>

definition ascii_decode :: "bytes \<Rightarrow> py_error + string" where
  "ascii_decode b = (if list_all (\<lambda>c. code c < 128) b then Inr b else Inl UnicodeDecodeError)"


text \<open>\<^verbatim>\<open>zlib.compress\<close> and \<^verbatim>\<open>zlib.decompress\<close>.\<close>

record zlib =
  zlib_compress :: "bytes \<Rightarrow> bytes"
  zlib_decompress :: "bytes \<Rightarrow> py_error + bytes"


text \<open>A stand-in that stores the bytes as they are.\<close>

definition stored_zlib :: zlib where
  "stored_zlib = \<lparr>zlib_compress = (\<lambda>b. b), zlib_decompress = (\<lambda>b. Inr b)\<rparr>"

text \<open>
  What \<^verbatim>\<open>compress_text\<close> returns, read with \<^verbatim>\<open>resp.get\<close>: a missing key reads as \<^verbatim>\<open>None\<close>.
\<close>

record response =
  r_method :: string
  r_compressed_blob_b64 :: json
  r_meta :: json
  r_orig_len :: "int option"
  r_compressed_len :: "int option"

definition simulate_compress :: "zlib \<Rightarrow> ustr \<Rightarrow> py_error + response" where
  "simulate_compress Z t =
     (case utf8_encode t of
        Inl e \<Rightarrow> Inl e
      | Inr b \<Rightarrow>
          (let compd = zlib_compress Z b
           in case ascii_decode (b64encode compd) of
                Inl e \<Rightarrow> Inl e
              | Inr b64 \<Rightarrow>
                  Inr \<lparr>r_method = ''simulated'', r_compressed_blob_b64 = JStr b64,
                       r_meta = JNull, r_orig_len = Some (int (length b)),
                       r_compressed_len = Some (int (length compd))\<rparr>))"



text \<open>
  The remote service: whether its address, its key and the \<^verbatim>\<open>requests\<close> module are all
  there, and what \<^verbatim>\<open>resp.json()\<close> is for a text, an error standing for any exception of
  the request.
\<close>

record remote =
  configured :: bool
  post :: "ustr \<Rightarrow> py_error + json"

text \<open>\<^verbatim>\<open>k in data\<close>: a key of a dict, an element of a list, a part of a string.\<close>

definition py_in :: "string \<Rightarrow> json \<Rightarrow> py_error + bool" where
  "py_in k data =
     (case data of
        JDict d \<Rightarrow> Inr (k \<in> set (map fst d))
      | JList xs \<Rightarrow> Inr (JStr k \<in> set xs)
      | JStr s \<Rightarrow> Inr (contains s k)
      | _ \<Rightarrow> Inl TypeError)"

text \<open>The \<^verbatim>\<open>try\<close> block of \<^verbatim>\<open>compress_text\<close>, after the request.\<close>

definition api_response :: "json \<Rightarrow> py_error + response" where
  "api_response data =
     (case py_in ''compressed_blob_b64'' data of
        Inl e \<Rightarrow> Inl e
      | Inr has \<Rightarrow>
          (if has \<or> py_in ''blob'' data = Inr True \<or> py_in ''compressed'' data = Inr True
           then (case data of
                   JDict d \<Rightarrow>
                     Inr \<lparr>r_method = ''api'',
                          r_compressed_blob_b64 =
                            por (por (dget d ''compressed_blob_b64'') (dget d ''blob''))
                                (dget d ''compressed''),
                          r_meta = data, r_orig_len = None, r_compressed_len = None\<rparr>
                 | _ \<Rightarrow> Inl AttributeError)
           else Inr \<lparr>r_method = ''api'', r_compressed_blob_b64 = JNull, r_meta = data,
                     r_orig_len = None, r_compressed_len = None\<rparr>))"

definition compress_text :: "zlib \<Rightarrow> remote \<Rightarrow> ustr \<Rightarrow> py_error + response" where
  "compress_text Z R t =
     (case (if configured R
            then (case post R t of Inl e \<Rightarrow> None
                  | Inr data \<Rightarrow> (case api_response data of Inl e \<Rightarrow> None | Inr r \<Rightarrow> Some r))
            else None) of
        Some r \<Rightarrow> Inr r
      | None \<Rightarrow> simulate_compress Z t)"

text \<open>No remote service configured.\<close>

definition no_remote :: remote where
  "no_remote = \<lparr>configured = False, post = (\<lambda>t. Inl OtherError)\<rparr>"


section \<open>Compression index statistics (compress\_stats.py, compress\_status)\<close>

text \<open>
  One entry of the compression index. The two lengths are \<^verbatim>\<open>None\<close> when the key is
  missing or null, which \<^verbatim>\<open>e.get\<close> does not distinguish.
\<close>

record index_entry =
  e_id :: json
  e_blob :: string
  e_method :: string
  e_orig_len :: "int option"
  e_compressed_len :: "int option"

text \<open>\<^verbatim>\<open>x or 0\<close> on an optional integer.\<close>

definition or0 :: "int option \<Rightarrow> int" where
  "or0 x = (case x of None \<Rightarrow> 0 | Some n \<Rightarrow> (if n \<noteq> 0 then n else 0))"

text \<open>The truth value of \<^verbatim>\<open>e.get('orig_len')\<close>.\<close>

definition truthy_len :: "int option \<Rightarrow> bool" where
  "truthy_len x = (case x of None \<Rightarrow> False | Some n \<Rightarrow> n \<noteq> 0)"

text \<open>
  \<^verbatim>\<open>sum((e.get('orig_len') or 0) - (e.get('compressed_len') or 0)
      for e in entries if e.get('orig_len'))\<close>
\<close>

definition bytes_saved :: "index_entry list \<Rightarrow> int" where
  "bytes_saved entries =
     sum_list (map (\<lambda>e. or0 (e_orig_len e) - or0 (e_compressed_len e))
                   (filter (\<lambda>e. truthy_len (e_orig_len e)) entries))"

text \<open>
  The total as the specification words it: the sum of \<^verbatim>\<open>orig_len - compressed_len\<close> over
  exactly the entries whose \<^verbatim>\<open>orig_len\<close> is present.
\<close>

fun savings_as_specified :: "index_entry list \<Rightarrow> int" where
  "savings_as_specified [] = 0"
| "savings_as_specified (e # es) =
     (case e_orig_len e of
        None \<Rightarrow> savings_as_specified es
      | Some n \<Rightarrow> n - or0 (e_compressed_len e) + savings_as_specified es)"

text \<open>The same with the filter the code applies: present and not zero.\<close>

fun savings_nonzero :: "index_entry list \<Rightarrow> int" where
  "savings_nonzero [] = 0"
| "savings_nonzero (e # es) =
     (case e_orig_len e of
        None \<Rightarrow> savings_nonzero es
      | Some n \<Rightarrow>
          (if n = 0 then savings_nonzero es
           else n - (case e_compressed_len e of None \<Rightarrow> 0 | Some c \<Rightarrow> c) + savings_nonzero es))"

definition stats_entry :: "int option \<Rightarrow> int option \<Rightarrow> index_entry" where
  "stats_entry ol cl =
     \<lparr>e_id = JNull, e_blob = [], e_method = [], e_orig_len = ol, e_compressed_len = cl\<rparr>"

section \<open>Compression index builder (compress\_recipes.py)\<close>

text \<open>\<^verbatim>\<open>d.get(k, default)\<close>\<close>

definition dget_default :: "(string \<times> json) list \<Rightarrow> string \<Rightarrow> json \<Rightarrow> json" where
  "dget_default d k v = (case map_of d k of None \<Rightarrow> v | Some x \<Rightarrow> x)"

text \<open>\<^verbatim>\<open>'\n'.join(parts)\<close> for strings.\<close>

fun join_lines :: "string list \<Rightarrow> string" where
  "join_lines [] = []"
| "join_lines [x] = x"
| "join_lines (x # y # rest) = x @ [CHR 0x0A] @ join_lines (y # rest)"

text \<open>The same for a list of values: \<^verbatim>\<open>join\<close> raises when one of them is not a string.\<close>

definition py_join :: "json list \<Rightarrow> py_error + string" where
  "py_join parts =
     (if list_all (\<lambda>p. case p of JStr s \<Rightarrow> True | _ \<Rightarrow> False) parts
      then Inr (join_lines (map (\<lambda>p. case p of JStr s \<Rightarrow> s | _ \<Rightarrow> []) parts))
      else Inl TypeError)"

text \<open>The part appended for one ingredient.\<close>

definition ingredient_part :: "pylib \<Rightarrow> json \<Rightarrow> json" where
  "ingredient_part L i =
     (case i of
        JDict di \<Rightarrow> por (dget di ''raw'') (dget_default di ''name'' (JStr []))
      | _ \<Rightarrow> JStr (py_str L i))"

text \<open>A section of the text: nothing for a falsy value, else the label and one part per element.\<close>

definition section_parts :: "string \<Rightarrow> (json \<Rightarrow> json) \<Rightarrow> json \<Rightarrow> py_error + json list" where
  "section_parts label part v =
     (if truthy v
      then (case py_iter v of
              Inl e \<Rightarrow> Inl e
            | Inr xs \<Rightarrow> Inr (JStr ([CHR 0x0A] @ label @ [CHR 0x0A]) # map part xs))
      else Inr [])"

definition build_text_for_recipe :: "pylib \<Rightarrow> json \<Rightarrow> py_error + string" where
  "build_text_for_recipe L r =
     (case r of
        JDict d \<Rightarrow>
          (case section_parts ''INGREDIENTS:'' (ingredient_part L)
                  (dget_default d ''ingredients'' (JList [])) of
             Inl e \<Rightarrow> Inl e
           | Inr ing_parts \<Rightarrow>
               (case section_parts ''STEPS:'' (\<lambda>s. JStr (py_str L s))
                       (dget_default d ''steps'' (JList [])) of
                  Inl e \<Rightarrow> Inl e
                | Inr step_parts \<Rightarrow>
                    (case (if truthy (dget d ''nutrition'')
                           then (case json_dumps L (dget d ''nutrition'') of
                                   Inl e \<Rightarrow> Inl e
                                 | Inr t \<Rightarrow>
                                     Inr [JStr ([CHR 0x0A] @ ''NUTRITION:'' @ [CHR 0x0A]), JStr t])
                           else Inr []) of
                       Inl e \<Rightarrow> Inl e
                     | Inr nutrition_parts \<Rightarrow>
                         py_join
                           (JStr (''TITLE: '' @ py_str L (dget_default d ''title'' (JStr []))) #
                            ing_parts @ step_parts @ nutrition_parts))))
      | _ \<Rightarrow> Inl AttributeError)"

text \<open>\<^verbatim>\<open>str(i)\<close> for a natural number: its decimal digits.\<close>

function str_of_nat :: "nat \<Rightarrow> string" where
  "str_of_nat n =
     (if n < 10 then [char_of (48 + n)]
      else str_of_nat (n div 10) @ [char_of (48 + n mod 10)])"
  by pat_completeness auto
termination
  by (relation "measure (\<lambda>n. n)") auto

declare str_of_nat.simps [simp del]

text \<open>\<^verbatim>\<open>re.sub(r'[^A-Za-z0-9._-]', '_', s)\<close>\<close>

definition is_safe_char :: "char \<Rightarrow> bool" where
  "is_safe_char c = (is_alpha c \<or> is_digit c \<or> c = CHR ''.'' \<or> c = CHR ''_'' \<or> c = CHR ''-'')"

definition sanitize :: "string \<Rightarrow> string" where
  "sanitize s = map (\<lambda>c. if is_safe_char c then c else CHR ''_'') s"

text \<open>The blob object written to a blob file.\<close>

record blob_obj =
  b_id :: json
  b_method :: string
  b_compressed_blob_b64 :: json
  b_orig_len :: "int option"
  b_compressed_len :: "int option"

text \<open>The index: \<^verbatim>\<open>{'count': ..., 'entries': [...]}\<close>.\<close>

record comp_index =
  idx_count :: int
  idx_entries :: "index_entry list"

text \<open>
  The body of the loop of \<^verbatim>\<open>run\<close> for the recipe \<open>r\<close> at position \<open>i\<close>: the name and the
  content of the blob file it writes and the entry it appends, or the exception that ends
  the run.
\<close>

definition process_recipe ::
  "pylib \<Rightarrow> zlib \<Rightarrow> remote \<Rightarrow> nat \<Rightarrow> json \<Rightarrow> py_error + string \<times> blob_obj \<times> index_entry" where
  "process_recipe L Z R i r =
     (case r of
        JDict d \<Rightarrow>
          (let rid = por (dget d ''id'') (JStr (''recipe_'' @ str_of_nat i));
               stripped = strip_char CHR ''_'' (sanitize (py_str L rid));
               safe = (if stripped = [] then ''recipe_'' @ str_of_nat i else stripped)
           in case build_text_for_recipe L r of
                Inl e \<Rightarrow> Inl e
              | Inr t \<Rightarrow>
                  (case compress_text Z R (map code t) of
                     Inl e \<Rightarrow> Inl e
                   | Inr resp \<Rightarrow>
                       (let blob_name = str_of_nat i @ ''_'' @ safe @ ''.json''
                        in Inr (blob_name,
                                \<lparr>b_id = rid, b_method = r_method resp,
                                 b_compressed_blob_b64 =
                                   por (por (r_compressed_blob_b64 resp) (r_meta resp)) JNull,
                                 b_orig_len = r_orig_len resp,
                                 b_compressed_len = r_compressed_len resp\<rparr>,
                                \<lparr>e_id = rid, e_blob = blob_name, e_method = r_method resp,
                                 e_orig_len = r_orig_len resp,
                                 e_compressed_len = r_compressed_len resp\<rparr>))))
      | _ \<Rightarrow> Inl AttributeError)"

text \<open>
  The loop of \<^verbatim>\<open>run\<close> from position \<open>i\<close>. The state is the blob files written so far, in
  the order of writing, and the index; the result is the files written and the index
  handed to the final \<^verbatim>\<open>json.dump\<close>, or the exception that ended the run before it.
\<close>

fun compress_loop ::
  "pylib \<Rightarrow> zlib \<Rightarrow> remote \<Rightarrow> int \<Rightarrow> nat \<Rightarrow> json list \<Rightarrow>
     (string \<times> blob_obj) list \<times> comp_index \<Rightarrow>
     (string \<times> blob_obj) list \<times> (py_error + comp_index)" where
  "compress_loop L Z R sample i [] (blobs, index) = (blobs, Inr index)"
| "compress_loop L Z R sample i (r # rs) (blobs, index) =
     (if sample \<noteq> 0 \<and> sample \<le> int i then (blobs, Inr index)
      else (case process_recipe L Z R i r of
              Inl e \<Rightarrow> (blobs, Inl e)
            | Inr (blob_name, obj, entry) \<Rightarrow>
                compress_loop L Z R sample (Suc i) rs
                  (blobs @ [(blob_name, obj)],
                   \<lparr>idx_count = idx_count index + 1,
                    idx_entries = idx_entries index @ [entry]\<rparr>)))"

text \<open>\<^verbatim>\<open>run\<close> of compress\_recipes.py, on the value that \<^verbatim>\<open>json.load\<close> read from the input.\<close>

definition compress_run ::
  "pylib \<Rightarrow> zlib \<Rightarrow> remote \<Rightarrow> json \<Rightarrow> int \<Rightarrow>
     (string \<times> blob_obj) list \<times> (py_error + comp_index)" where
  "compress_run L Z R recipes sample =
     (case py_iter recipes of
        Inl e \<Rightarrow> ([], Inl e)
      | Inr items \<Rightarrow>
          compress_loop L Z R sample 0 items ([], \<lparr>idx_count = 0, idx_entries = []\<rparr>))"

text \<open>How many recipes a run that completes has processed.\<close>

definition processed_count :: "int \<Rightarrow> nat \<Rightarrow> nat" where
  "processed_count sample n = (if sample = 0 then n else min n (nat sample))"

text \<open>Two recipes whose ids become equal once sanitized.\<close>

definition colliding_recipes :: json where
  "colliding_recipes = JList [JDict [(''id'', JStr ''a/b'')], JDict [(''id'', JStr ''a b'')]]"

text \<open>The blob files and the index of a run on them with the local backend.\<close>

definition colliding_blobs :: "(string \<times> blob_obj) list" where
  "colliding_blobs =
     [(''0_a_b.json'',
       \<lparr>b_id = JStr ''a/b'', b_method = ''simulated'',
        b_compressed_blob_b64 = JStr ''VElUTEU6IA=='', b_orig_len = Some 7,
        b_compressed_len = Some 7\<rparr>),
      (''1_a_b.json'',
       \<lparr>b_id = JStr ''a b'', b_method = ''simulated'',
        b_compressed_blob_b64 = JStr ''VElUTEU6IA=='', b_orig_len = Some 7,
        b_compressed_len = Some 7\<rparr>)]"

definition colliding_index :: comp_index where
  "colliding_index =
     \<lparr>idx_count = 2,
      idx_entries =
        [\<lparr>e_id = JStr ''a/b'', e_blob = ''0_a_b.json'', e_method = ''simulated'',
          e_orig_len = Some 7, e_compressed_len = Some 7\<rparr>,
         \<lparr>e_id = JStr ''a b'', e_blob = ''1_a_b.json'', e_method = ''simulated'',
          e_orig_len = Some 7, e_compressed_len = Some 7\<rparr>]\<rparr>"

section \<open>Theorems: compression index statistics\<close>

lemma or0_eq: "or0 x = (case x of None \<Rightarrow> 0 | Some c \<Rightarrow> c)"
  by (simp add: or0_def split: option.split)

text \<open>
  C8 (as amended). The byte savings total is the sum of \<^verbatim>\<open>orig_len - compressed_len\<close> over
  the entries whose \<^verbatim>\<open>orig_len\<close> is present and not zero, a missing \<^verbatim>\<open>compressed_len\<close>
  counting as zero and negative savings included as they are; for the index of the
  specification's example the total is 50.
\<close>

theorem bytes_saved_total:
  "bytes_saved es = savings_nonzero es \<and>
   bytes_saved [stats_entry (Some 100) (Some 40), stats_entry (Some 50) (Some 60),
                stats_entry None (Some 10)] = 50"
proof
  show "bytes_saved es = savings_nonzero es"
  proof (induction es)
    case Nil
    show ?case by (simp add: bytes_saved_def)
  next
    case (Cons e es)
    then show ?case
      by (simp add: bytes_saved_def truthy_len_def or0_eq split: option.split)
  qed
next
  show "bytes_saved [stats_entry (Some 100) (Some 40), stats_entry (Some 50) (Some 60),
                     stats_entry None (Some 10)] = 50"
    by (simp add: bytes_saved_def truthy_len_def or0_def stats_entry_def)
qed

text \<open>
  C8 as stated fails: an entry whose \<^verbatim>\<open>orig_len\<close> is present with value 0 is left out of
  the code's total, although its saving \<^verbatim>\<open>0 - 8\<close> belongs to the sum as specified.
\<close>

theorem bytes_saved_zero_orig_len_counterexample:
  "bytes_saved [stats_entry (Some 0) (Some 8)] = 0 \<and>
   savings_as_specified [stats_entry (Some 0) (Some 8)] = - 8"
  by (simp add: bytes_saved_def truthy_len_def or0_def stats_entry_def)


section \<open>Theorems: ingredient parsing\<close>




















lemma parse_quantity_returns: "\<exists>v. parse_quantity q = Inr v"
  by (simp add: parse_quantity_def split: sum.split)




text \<open>
  C4. \<^verbatim>\<open>parse_ingredient\<close> returns an ingredient for every input string and never raises:
  the conversions of \<^verbatim>\<open>parse_quantity\<close> are the only operations that can raise, and its
  handler turns each error into a null quantity. When \<^verbatim>\<open>ING_RE\<close> does not match, the
  whole line, trimmed, is the name, with quantity and unit null; the empty string is such
  a line.
\<close>

theorem parse_ingredient_total:
  "(\<exists>i. parse_ingredient s = Inr i \<and> raw i = s \<and>
        (re_match ING_RE s = None \<longrightarrow>
           i = \<lparr>raw = s, quantity = None, unit = None, name = strip s\<rparr>)) \<and>
   parse_ingredient [] = Inr \<lparr>raw = [], quantity = None, unit = None, name = []\<rparr>"
proof
  show "\<exists>i. parse_ingredient s = Inr i \<and> raw i = s \<and>
        (re_match ING_RE s = None \<longrightarrow>
           i = \<lparr>raw = s, quantity = None, unit = None, name = strip s\<rparr>)"
  proof (cases "re_match ING_RE s")
    case None
    then show ?thesis by (simp add: parse_ingredient_def)
  next
    case (Some m)
    show ?thesis
    proof (cases "m_group m ''qty''")
      case None
      with Some show ?thesis by (simp add: parse_ingredient_def)
    next
      case (Some q)
      obtain v where "parse_quantity q = Inr v" using parse_quantity_returns by blast
      with Some \<open>re_match ING_RE s = Some m\<close> show ?thesis
        by (simp add: parse_ingredient_def)
    qed
  qed
next
  show "parse_ingredient [] = Inr \<lparr>raw = [], quantity = None, unit = None, name = []\<rparr>"
    by code_simp
qed

theorem parse_ingredient_total_witness:
  "re_match ING_RE [CHR 0x0A, CHR 0x0A] = None \<and>
   parse_ingredient [CHR 0x0A, CHR 0x0A] =
     Inr \<lparr>raw = [CHR 0x0A, CHR 0x0A], quantity = None, unit = None, name = []\<rparr>"
proof -
  have n: "re_match ING_RE [CHR 0x0A, CHR 0x0A] = None" by code_simp
  have s: "strip [CHR 0x0A, CHR 0x0A] = []" by code_simp
  from parse_ingredient_total[of "[CHR 0x0A, CHR 0x0A]"] n s show ?thesis by auto
qed


text \<open>
  C3 (the code departs from the claim). \<^verbatim>\<open>tbsp.\<close> is a key of the synonym table, and
  \<^verbatim>\<open>normalize_unit\<close> strips a trailing period, but the unit group \<^verbatim>\<open>[a-zA-Z]+\<close> cannot take
  the period: for \<^verbatim>\<open>2 tbsp. sugar\<close> the quantity and the unit are as claimed and the period
  stays in the name.
\<close>

theorem parse_ingredient_tbsp_period:
  "map_of UNIT_MAP ''tbsp.'' = Some ''tablespoon'' \<and>
   parse_ingredient ''2 tbsp. sugar'' =
     Inr \<lparr>raw = ''2 tbsp. sugar'', quantity = Some 2, unit = Some ''tablespoon'',
          name = ''. sugar''\<rparr>"
  by code_simp


section \<open>Theorems: ingestion pipeline\<close>

lemma first_by_id_subset: "set (first_by_id xs) \<subseteq> set xs"
  by (induction xs rule: first_by_id.induct) auto

lemma first_by_id_distinct: "distinct (map recipe_id (first_by_id xs))"
proof (induction xs rule: first_by_id.induct)
  case 1
  show ?case by simp
next
  case (2 r rs)
  have "recipe_id r \<notin> recipe_id ` set (first_by_id (filter (\<lambda>x. recipe_id x \<noteq> recipe_id r) rs))"
    using first_by_id_subset[of "filter (\<lambda>x. recipe_id x \<noteq> recipe_id r) rs"] by auto
  with 2 show ?case by simp
qed

lemma first_by_id_ids: "ids (first_by_id xs) = ids xs"
proof (induction xs rule: first_by_id.induct)
  case 1
  show ?case by simp
next
  case (2 r rs)
  then show ?case by (auto simp: ids_def)
qed

lemma first_by_id_append:
  "first_by_id (xs @ ys) =
     first_by_id xs @ first_by_id (filter (\<lambda>y. recipe_id y \<notin> ids xs) ys)"
proof (induction xs arbitrary: ys rule: first_by_id.induct)
  case 1
  show ?case by (simp add: ids_def)
next
  case (2 r rs)
  let ?f = "\<lambda>x. recipe_id x \<noteq> recipe_id r"
  have "filter (\<lambda>y. recipe_id y \<notin> ids (filter ?f rs)) (filter ?f ys) =
        filter (\<lambda>y. recipe_id y \<notin> ids (r # rs)) ys"
    by (induction ys) (auto simp: ids_def)
  with 2[of "filter ?f ys"] show ?case by (simp del: filter_filter)
qed

lemma unseen_Nil: "unseen S [] = []"
  by (simp add: unseen_def)

lemma unseen_seen: "recipe_id r \<in> S \<Longrightarrow> unseen S (r # rs) = unseen S rs"
  by (simp add: unseen_def)

lemma unseen_new:
  "recipe_id r \<notin> S \<Longrightarrow> unseen S (r # rs) = r # unseen (insert (recipe_id r) S) rs"
proof -
  have "filter (\<lambda>x. recipe_id x \<noteq> recipe_id r) (filter (\<lambda>x. recipe_id x \<notin> S) rs) =
        filter (\<lambda>x. recipe_id x \<notin> insert (recipe_id r) S) rs"
    by (induction rs) auto
  then show "recipe_id r \<notin> S \<Longrightarrow> ?thesis" by (simp add: unseen_def del: filter_filter)
qed

lemma unseen_ids: "ids (unseen S xs) = ids xs - S"
  by (auto simp: unseen_def first_by_id_ids) (auto simp: ids_def)

lemma unseen_append:
  "unseen S (xs @ ys) = unseen S xs @ unseen (S \<union> ids xs) ys"
proof -
  have "filter (\<lambda>y. recipe_id y \<notin> ids (filter (\<lambda>x. recipe_id x \<notin> S) xs))
          (filter (\<lambda>x. recipe_id x \<notin> S) ys) =
        filter (\<lambda>x. recipe_id x \<notin> S \<union> ids xs) ys"
    by (induction ys) (auto simp: ids_def)
  then show ?thesis by (simp add: unseen_def first_by_id_append del: filter_filter)
qed

lemma ids_append: "ids (xs @ ys) = ids xs \<union> ids ys"
  by (auto simp: ids_def)

lemma limit_None: "limit_reached limit c \<Longrightarrow> limit \<noteq> None"
  by (cases limit) (simp_all add: limit_reached_def)

lemma add_records_spec:
  assumes "add_records L limit items (c, seen) = ((c', seen'), e)" "seen = ids c"
  shows "seen' = ids c' \<and>
         (\<exists>new rest. c' = c @ new \<and> unseen seen (normalized_prefix L items) = new @ rest \<and>
            (e \<noteq> Broke \<longrightarrow> rest = []) \<and> (limit = None \<longrightarrow> e \<noteq> Broke))"
  using assms
proof (induction items arbitrary: c seen)
  case Nil
  then show ?case by (auto simp: unseen_Nil)
next
  case (Cons r rs)
  show ?case
  proof (cases "normalize_recipe L r")
    case (Inl err)
    with Cons.prems show ?thesis by (auto simp: unseen_Nil)
  next
    case (Inr nr)
    show ?thesis
    proof (cases "recipe_id nr \<in> seen")
      case True
      with Inr Cons.prems have "add_records L limit rs (c, seen) = ((c', seen'), e)" by simp
      from Cons.IH[OF this Cons.prems(2)] True Inr show ?thesis by (simp add: unseen_seen)
    next
      case False
      let ?c = "c @ [nr]" and ?s = "insert (recipe_id nr) seen"
      have s: "?s = ids ?c" using Cons.prems(2) by (simp add: ids_def)
      have u: "unseen seen (normalized_prefix L (r # rs)) = nr # unseen ?s (normalized_prefix L rs)"
        using Inr False by (simp add: unseen_new)
      show ?thesis
      proof (cases "limit_reached limit ?c")
        case True
        with Inr False Cons.prems have "c' = ?c" "seen' = ?s" "e = Broke" by auto
        moreover from True have "limit \<noteq> None" by (rule limit_None)
        ultimately show ?thesis using s u by auto
      next
        case nl: False
        with Inr False Cons.prems have "add_records L limit rs (?c, ?s) = ((c', seen'), e)"
          by simp
        from Cons.IH[OF this s] obtain new rest where
          "seen' = ids c'" "c' = ?c @ new" "unseen ?s (normalized_prefix L rs) = new @ rest"
          "e \<noteq> Broke \<longrightarrow> rest = []" "limit = None \<longrightarrow> e \<noteq> Broke" by blast
        with u have "seen' = ids c' \<and> c' = c @ (nr # new) \<and>
            unseen seen (normalized_prefix L (r # rs)) = (nr # new) @ rest \<and>
            (e \<noteq> Broke \<longrightarrow> rest = []) \<and> (limit = None \<longrightarrow> e \<noteq> Broke)" by simp
        then show ?thesis by blast
      qed
    qed
  qed
qed

lemma scan_files_spec:
  assumes "scan_files L d limit ps (c, seen) = (c', seen')" "seen = ids c"
  shows "seen' = ids c' \<and>
         (\<exists>new rest. c' = c @ new \<and> unseen seen (scanned_of L d ps) = new @ rest \<and>
            (limit = None \<longrightarrow> rest = []))"
  using assms
proof (induction ps arbitrary: c seen)
  case Nil
  then show ?case by (auto simp: scanned_of_def unseen_Nil)
next
  case (Cons p ps)
  show ?case
  proof (cases "file_records L d p")
    case None
    with Cons.prems have "scan_files L d limit ps (c, seen) = (c', seen')" by simp
    from Cons.IH[OF this Cons.prems(2)] None show ?thesis by (simp add: scanned_of_def)
  next
    case (Some rec)
    obtain items fails where rec: "rec = (items, fails)" by (cases rec)
    obtain c1 s1 e where ar: "add_records L limit items (c, seen) = ((c1, s1), e)"
      by (metis prod.exhaust)
    from add_records_spec[OF ar Cons.prems(2)] obtain new rest where
      s1: "s1 = ids c1" and c1: "c1 = c @ new" and
      u: "unseen seen (normalized_prefix L items) = new @ rest" and
      r: "e \<noteq> Broke \<longrightarrow> rest = []" and l: "limit = None \<longrightarrow> e \<noteq> Broke" by blast
    have sc: "scanned_of L d (p # ps) = normalized_prefix L items @ scanned_of L d ps"
      using Some rec by (simp add: scanned_of_def)
    have split: "unseen seen (scanned_of L d (p # ps)) =
        new @ rest @ unseen (seen \<union> ids (normalized_prefix L items)) (scanned_of L d ps)"
      using sc u by (simp add: unseen_append)
    let ?stop = "e = Broke \<or> (e = Exhausted \<and> \<not> fails \<and> limit_reached limit c1)"
    have step: "scan_files L d limit (p # ps) (c, seen) =
        (if ?stop then (c1, s1) else scan_files L d limit ps (c1, s1))"
      using Some rec ar by (cases e) auto
    show ?thesis
    proof (cases ?stop)
      case True
      with step Cons.prems have eq: "c' = c1" "seen' = s1" by auto
      from True l have "limit \<noteq> None" by (auto dest: limit_None)
      with eq s1 c1 split show ?thesis by auto
    next
      case False
      with step Cons.prems have nb: "e \<noteq> Broke"
        and cont: "scan_files L d limit ps (c1, s1) = (c', seen')"
        by auto
      from nb r have rest: "rest = []" by simp
      from Cons.IH[OF cont s1] obtain new2 rest2 where
        "seen' = ids c'" "c' = c1 @ new2" "unseen s1 (scanned_of L d ps) = new2 @ rest2"
        "limit = None \<longrightarrow> rest2 = []" by blast
      moreover have "s1 = seen \<union> ids (normalized_prefix L items)"
        using s1 c1 u rest Cons.prems(2) unseen_ids[of seen "normalized_prefix L items"]
        by (auto simp: ids_append)
      ultimately have "seen' = ids c' \<and> c' = c @ (new @ new2) \<and>
          unseen seen (scanned_of L d (p # ps)) = (new @ new2) @ rest2 \<and>
          (limit = None \<longrightarrow> rest2 = [])"
        using c1 split rest by simp
      then show ?thesis by blast
    qed
  qed
qed

text \<open>
  C1. The collection that \<^verbatim>\<open>run\<close> writes has pairwise distinct ids. It is made of the
  records scanned (files sorted by name, each file up to the first record that fails to
  normalize), each id at its first occurrence only and every later record of that id
  dropped: the whole of that sequence without a sample limit, a leading part of it with
  one.
\<close>

theorem run_first_occurrence_wins:
  "distinct (map recipe_id (run L d limit)) \<and>
   (\<exists>rest. first_by_id (scanned L d) = run L d limit @ rest) \<and>
   run L d None = first_by_id (scanned L d)"
proof -
  have spec: "\<exists>rest. first_by_id (scanned L d) = run L d lm @ rest \<and> (lm = None \<longrightarrow> rest = [])"
    for lm
  proof -
    obtain c' seen' where r: "scan_files L d lm (sort (listing d)) ([], {}) = (c', seen')"
      by (metis prod.exhaust)
    have "{} = ids []" by (simp add: ids_def)
    from scan_files_spec[OF r this] r show ?thesis
      by (auto simp: run_def scanned_def unseen_def)
  qed
  from spec[of limit] obtain rest where rest: "first_by_id (scanned L d) = run L d limit @ rest"
    by blast
  have "distinct (map recipe_id (run L d limit @ rest))"
    using first_by_id_distinct[of "scanned L d"] rest by simp
  then have "distinct (map recipe_id (run L d limit))" by simp
  moreover from spec[of None] have "run L d None = first_by_id (scanned L d)" by auto
  ultimately show ?thesis using rest by blast
qed


section \<open>Theorems: CSV cells and rows\<close>

lemma rstrip_idem: "rstrip (rstrip s) = rstrip s"
  by (simp add: rstrip_def dropWhile_idem)

lemma rstrip_Cons_nonspace: "\<not> is_space c \<Longrightarrow> rstrip (c # cs) = c # rstrip cs"
  by (simp add: rstrip_def dropWhile_append3)

lemma strip_idem: "strip (strip s) = strip s"
proof (cases "lstrip s")
  case Nil
  then have "strip s = []" by (simp add: strip_def rstrip_def)
  moreover have "strip [] = []" by (simp add: strip_def rstrip_def lstrip_def)
  ultimately show ?thesis by simp
next
  case (Cons c cs)
  then have "\<not> is_space c"
    unfolding lstrip_def by (metis dropWhile_eq_Cons_conv)
  then have r: "rstrip (c # cs) = c # rstrip cs" by (rule rstrip_Cons_nonspace)
  with \<open>\<not> is_space c\<close> have "lstrip (rstrip (c # cs)) = rstrip (c # cs)"
    by (simp add: lstrip_def)
  with Cons show ?thesis by (simp add: strip_def rstrip_idem)
qed

lemma parse_json_cell_blank: "parse_json_cell L [] = None"
  by (simp add: parse_json_cell_def startswith_def)

text \<open>
  C6 (as amended). A cell that is empty or blank parses to the empty list. For every other
  cell, trimmed: when it starts with a bracket and \<^verbatim>\<open>json.loads\<close> returns a list, the result
  is its elements each coerced to string; when \<^verbatim>\<open>json.loads\<close> returns a dict, the result is
  the one-element list of its serialized form; when it does not start with a bracket or
  \<^verbatim>\<open>json.loads\<close> raises, the cell is split at the first delimiter found in the order
  \<^verbatim>\<open>||\<close>, line feed, \<^verbatim>\<open>;\<close>, \<^verbatim>\<open>|\<close>, the parts trimmed and the empty ones dropped, and without
  a delimiter the result is the trimmed cell as a one-element list. The three cells of the
  specification parse as it says.
\<close>

theorem parse_csv_cell_precedence:
  \<open>(strip s = [] \<longrightarrow> parse_csv_cell L (Some s) = []) \<and>
   (strip s \<noteq> [] \<longrightarrow>
      (startswith (strip s) ''['' \<or> startswith (strip s) ''{'' \<longrightarrow>
         (\<forall>xs. json_loads L (strip s) = Inr (JList xs) \<longrightarrow>
            parse_csv_cell L (Some s) = map (py_str L) xs) \<and>
         (\<forall>d t. json_loads L (strip s) = Inr (JDict d) \<and> json_dumps L (JDict d) = Inr t \<longrightarrow>
            parse_csv_cell L (Some s) = [t])) \<and>
      (\<not> (startswith (strip s) ''['' \<or> startswith (strip s) ''{'') \<or>
       (\<exists>e. json_loads L (strip s) = Inl e) \<longrightarrow>
         parse_csv_cell L (Some s) =
           (if contains (strip s) ''||'' then stripped_parts (split (strip s) ''||'')
            else if CHR 0x0A \<in> set (strip s) then stripped_parts (splitlines (strip s))
            else if CHR '';'' \<in> set (strip s) then stripped_parts (split (strip s) '';'')
            else if CHR ''|'' \<in> set (strip s) then stripped_parts (split (strip s) ''|'')
            else [strip s]))) \<and>
   (json_loads L ''["egg","flour"]'' = Inr (JList [JStr ''egg'', JStr ''flour'']) \<longrightarrow>
      parse_csv_cell L (Some ''["egg","flour"]'') = [''egg'', ''flour'']) \<and>
   parse_csv_cell L (Some ''egg; flour'') = [''egg'', ''flour''] \<and>
   parse_csv_cell L (Some ''egg || flour || milk'') = [''egg'', ''flour'', ''milk'']\<close>
proof (intro conjI impI allI)
  assume "strip s = []"
  then show "parse_csv_cell L (Some s) = []"
    by (simp add: parse_csv_cell_def parse_json_cell_blank split_delimited_field_def)
next
  fix xs
  assume "strip s \<noteq> []" "startswith (strip s) ''['' \<or> startswith (strip s) ''{''"
    "json_loads L (strip s) = Inr (JList xs)"
  then show "parse_csv_cell L (Some s) = map (py_str L) xs"
    by (auto simp: parse_csv_cell_def parse_json_cell_def Let_def strip_def rstrip_def lstrip_def)
next
  fix d t
  assume "strip s \<noteq> []" "startswith (strip s) ''['' \<or> startswith (strip s) ''{''"
    "json_loads L (strip s) = Inr (JDict d) \<and> json_dumps L (JDict d) = Inr t"
  then show "parse_csv_cell L (Some s) = [t]"
    by (auto simp: parse_csv_cell_def parse_json_cell_def Let_def strip_def rstrip_def lstrip_def)
next
  assume ne: "strip s \<noteq> []" and
    f: "\<not> (startswith (strip s) ''['' \<or> startswith (strip s) ''{'') \<or>
        (\<exists>e. json_loads L (strip s) = Inl e)"
  from ne have s: "s \<noteq> []" by (auto simp: strip_def rstrip_def lstrip_def)
  from f have "parse_json_cell L (strip s) = None"
    by (auto simp: parse_json_cell_def)
  with s ne show "parse_csv_cell L (Some s) =
           (if contains (strip s) ''||'' then stripped_parts (split (strip s) ''||'')
            else if CHR 0x0A \<in> set (strip s) then stripped_parts (splitlines (strip s))
            else if CHR '';'' \<in> set (strip s) then stripped_parts (split (strip s) '';'')
            else if CHR ''|'' \<in> set (strip s) then stripped_parts (split (strip s) ''|'')
            else [strip s])"
    by (simp add: parse_csv_cell_def Let_def split_delimited_field_def strip_idem)
next
  have v: \<open>strip ''["egg","flour"]'' = ''["egg","flour"]''\<close> by code_simp
  have b: \<open>startswith ''["egg","flour"]'' ''[''\<close> by code_simp
  assume \<open>json_loads L ''["egg","flour"]'' = Inr (JList [JStr ''egg'', JStr ''flour''])\<close>
  with v b show \<open>parse_csv_cell L (Some ''["egg","flour"]'') = [''egg'', ''flour'']\<close>
    by (simp add: parse_csv_cell_def parse_json_cell_def py_str_def)
next
  show "parse_csv_cell L (Some ''egg; flour'') = [''egg'', ''flour'']"
    by code_simp
next
  show "parse_csv_cell L (Some ''egg || flour || milk'') = [''egg'', ''flour'', ''milk'']"
    by code_simp
qed

theorem parse_csv_cell_precedence_witness:
  \<open>strip ''["egg","flour"]'' \<noteq> [] \<and> startswith (strip ''["egg","flour"]'') ''['' \<and>
   json_loads egg_flour_lib ''["egg","flour"]'' = Inr (JList [JStr ''egg'', JStr ''flour'']) \<and>
   parse_csv_cell egg_flour_lib (Some ''["egg","flour"]'') = [''egg'', ''flour''] \<and>
   strip ''  '' = [] \<and> parse_csv_cell egg_flour_lib (Some ''  '') = [] \<and>
   strip ''[x|y'' \<noteq> [] \<and> json_loads egg_flour_lib (strip ''[x|y'') = Inl ValueError \<and>
   parse_csv_cell egg_flour_lib (Some ''[x|y'') = [''[x'', ''y'']\<close>
proof -
  have v: \<open>strip ''["egg","flour"]'' = ''["egg","flour"]''\<close> by code_simp
  have b: \<open>startswith ''["egg","flour"]'' ''[''\<close> by code_simp
  have j: \<open>json_loads egg_flour_lib ''["egg","flour"]'' =
      Inr (JList [JStr ''egg'', JStr ''flour''])\<close>
    by (simp add: egg_flour_lib_def)
  have w: "strip ''  '' = []" by code_simp
  have x: "strip ''[x|y'' = ''[x|y''" by code_simp
  have e: "json_loads egg_flour_lib ''[x|y'' = Inl ValueError"
    by (simp add: egg_flour_lib_def)
  have sp: "stripped_parts (split ''[x|y'' ''|'') = [''[x'', ''y'']" by code_simp
  have c: "\<not> contains ''[x|y'' ''||''" by code_simp
  from parse_csv_cell_precedence[of \<open>''["egg","flour"]''\<close> egg_flour_lib] v b j
  have 1: \<open>parse_csv_cell egg_flour_lib (Some ''["egg","flour"]'') = [''egg'', ''flour'']\<close>
    by (simp add: py_str_def)
  from parse_csv_cell_precedence[of "''  ''" egg_flour_lib] w
  have 2: "parse_csv_cell egg_flour_lib (Some ''  '') = []" by simp
  from parse_csv_cell_precedence[of "''[x|y''" egg_flour_lib] x e sp c
  have 3: "parse_csv_cell egg_flour_lib (Some ''[x|y'') = [''[x'', ''y'']" by simp
  from 1 2 3 v b j w x e show ?thesis by simp
qed

text \<open>
  C6 as stated fails: the empty cell has no delimiter and is not JSON, and it parses to
  the empty list, not to the one-element list of the trimmed cell.
\<close>

theorem parse_csv_cell_blank_counterexample:
  "\<not> contains [] ''||'' \<and> CHR 0x0A \<notin> set [] \<and> CHR '';'' \<notin> set [] \<and> CHR ''|'' \<notin> set [] \<and>
   parse_csv_cell egg_flour_lib (Some []) = [] \<and>
   parse_csv_cell egg_flour_lib (Some []) \<noteq> [strip []]"
  by code_simp

text \<open>
  C7 (the code departs from the claim). For a row with no steps, directions or instructions
  field and the description \<^verbatim>\<open>Mix; bake\<close>, the description is the last alias of
  \<^verbatim>\<open>steps_raw\<close> and goes through \<^verbatim>\<open>parse_csv_cell\<close>: the normalized recipe has the two steps
  \<^verbatim>\<open>Mix\<close> and \<^verbatim>\<open>bake\<close>, and the branch that wraps the description as a single step is not
  taken.
\<close>

theorem csv_description_is_split:
  "csv_item L [(''title'', ''Cake''), (''description'', ''Mix; bake'')] =
     JDict [(''id'', JStr ''Cake''), (''title'', JStr ''Cake''), (''ingredients'', JList []),
            (''steps'', JList [JStr ''Mix'', JStr ''bake'']), (''nutrition'', JDict []),
            (''source_url'', JNull)] \<and>
   normalize_recipe L (csv_item L [(''title'', ''Cake''), (''description'', ''Mix; bake'')]) =
     Inr \<lparr>recipe_id = ''Cake'', title = JStr ''Cake'', ingredients = [],
          steps = JList [JStr ''Mix'', JStr ''bake''], nutrition = JDict [],
          source_url = JNull\<rparr>"
  by code_simp


section \<open>Theorems: ScaleDown client\<close>


lemma code_char_of: "n < 256 \<Longrightarrow> code (char_of n) = n"
  by (simp add: code_def)











































section \<open>Theorems: compression index builder\<close>

lemma str_of_nat_digits: "list_all is_digit (str_of_nat n)"
proof (induction n rule: str_of_nat.induct)
  case (1 n)
  show ?case
  proof (cases "n < 10")
    case True
    then show ?thesis by (subst str_of_nat.simps) (simp add: is_digit_def code_char_of)
  next
    case False
    have "n mod 10 < 10" by simp
    then have "is_digit (char_of (48 + n mod 10))" by (simp add: is_digit_def code_char_of)
    with 1 False show ?thesis by (subst str_of_nat.simps) simp
  qed
qed

lemma digits_value_snoc: "digits_value (xs @ [c]) = 10 * digits_value xs + (code c - 48)"
  by (simp add: digits_value_def)

lemma digits_value_str_of_nat: "digits_value (str_of_nat n) = n"
proof (induction n rule: str_of_nat.induct)
  case (1 n)
  show ?case
  proof (cases "n < 10")
    case True
    then show ?thesis
      by (subst str_of_nat.simps) (simp add: digits_value_def code_char_of)
  next
    case False
    have "n mod 10 < 10" by simp
    then have "code (char_of (48 + n mod 10)) - 48 = n mod 10" by (simp add: code_char_of)
    with 1 False show ?thesis
      by (subst str_of_nat.simps) (simp add: digits_value_snoc)
  qed
qed

text \<open>The position that a blob name starts with.\<close>

lemma name_prefix:
  "digits_value (takeWhile is_digit (str_of_nat i @ CHR ''_'' # rest)) = i"
proof -
  have "\<not> is_digit CHR ''_''" by (simp add: is_digit_def code_def)
  moreover have "\<And>x. x \<in> set (str_of_nat i) \<Longrightarrow> is_digit x"
    using str_of_nat_digits[of i] by (simp add: list_all_iff)
  ultimately have "takeWhile is_digit (str_of_nat i @ CHR ''_'' # rest) = str_of_nat i"
    by (simp add: takeWhile_append2)
  then show ?thesis by (simp add: digits_value_str_of_nat)
qed

lemma process_recipe_name:
  assumes "process_recipe L Z R i r = Inr (nm, obj, ent)"
  shows "e_blob ent = nm \<and> (\<exists>rest. nm = str_of_nat i @ CHR ''_'' # rest)"
proof (cases r)
  case (JDict d)
  show ?thesis
  proof (cases "build_text_for_recipe L r")
    case (Inl e)
    with assms JDict show ?thesis by (simp add: process_recipe_def Let_def)
  next
    case (Inr t)
    show ?thesis
    proof (cases "compress_text Z R (map code t)")
      case (Inl e)
      with assms JDict Inr show ?thesis by (simp add: process_recipe_def Let_def)
    next
      case resp: (Inr resp)
      with assms JDict Inr show ?thesis
        by (auto simp: process_recipe_def Let_def)
    qed
  qed
qed (use assms in \<open>simp_all add: process_recipe_def\<close>)

text \<open>What one pass of the loop does to the state, whatever the outcome.\<close>

lemma compress_loop_names:
  assumes "compress_loop L Z R sample i rs (blobs, index) = (blobs', res)"
  shows "\<exists>new. map fst blobs' = map fst blobs @ new \<and>
           (\<forall>k<length new. \<exists>rest. new ! k = str_of_nat (i + k) @ CHR ''_'' # rest)"
  using assms
proof (induction rs arbitrary: i blobs index)
  case Nil
  then show ?case by auto
next
  case (Cons r rs)
  show ?case
  proof (cases "sample \<noteq> 0 \<and> sample \<le> int i")
    case True
    with Cons.prems show ?thesis by auto
  next
    case False
    show ?thesis
    proof (cases "process_recipe L Z R i r")
      case (Inl e)
      with False Cons.prems show ?thesis by auto
    next
      case (Inr triple)
      obtain nm obj ent where t: "triple = (nm, obj, ent)" by (cases triple)
      from process_recipe_name[OF Inr[unfolded t]] obtain rest0 where
        nm: "nm = str_of_nat i @ CHR ''_'' # rest0" by blast
      have "compress_loop L Z R sample i (r # rs) (blobs, index) =
          compress_loop L Z R sample (Suc i) rs
           (blobs @ [(nm, obj)],
            \<lparr>idx_count = idx_count index + 1, idx_entries = idx_entries index @ [ent]\<rparr>)"
        using False Inr t by auto
      with Cons.prems have
        "compress_loop L Z R sample (Suc i) rs
           (blobs @ [(nm, obj)],
            \<lparr>idx_count = idx_count index + 1, idx_entries = idx_entries index @ [ent]\<rparr>) =
         (blobs', res)" by simp
      from Cons.IH[OF this] obtain new where
        n1: "map fst blobs' = map fst (blobs @ [(nm, obj)]) @ new" and
        n2: "\<forall>k<length new. \<exists>rest. new ! k = str_of_nat (Suc i + k) @ CHR ''_'' # rest"
        by blast
      have "\<forall>k<length (nm # new). \<exists>rest. (nm # new) ! k = str_of_nat (i + k) @ CHR ''_'' # rest"
      proof (intro allI impI)
        fix k assume "k < length (nm # new)"
        then show "\<exists>rest. (nm # new) ! k = str_of_nat (i + k) @ CHR ''_'' # rest"
          using nm n2 by (cases k) auto
      qed
      moreover from n1 have "map fst blobs' = map fst blobs @ (nm # new)" by simp
      ultimately show ?thesis by blast
    qed
  qed
qed

lemma colliding_run:
  "compress_run egg_flour_lib stored_zlib no_remote colliding_recipes 0 =
     (colliding_blobs, Inr colliding_index)"
  by code_simp

text \<open>
  C9. The blob file names that a run of the compression index builder writes are pairwise
  distinct, whatever the recipe ids: each name starts with the position of its recipe in
  the batch, in decimal, followed by an underscore. The two ids \<^verbatim>\<open>a/b\<close> and \<^verbatim>\<open>a b\<close> become
  equal once sanitized, and their files are \<^verbatim>\<open>0_a_b.json\<close> and \<^verbatim>\<open>1_a_b.json\<close>.
\<close>

theorem blob_names_distinct:
  "distinct (map fst (fst (compress_run L Z R recipes sample))) \<and>
   sanitize ''a/b'' = sanitize ''a b'' \<and>
   map fst (fst (compress_run egg_flour_lib stored_zlib no_remote colliding_recipes 0)) =
     [''0_a_b.json'', ''1_a_b.json'']"
proof (intro conjI)
  show "sanitize ''a/b'' = sanitize ''a b''" by code_simp
  show "map fst (fst (compress_run egg_flour_lib stored_zlib no_remote colliding_recipes 0)) =
     [''0_a_b.json'', ''1_a_b.json'']"
    by (simp add: colliding_run colliding_blobs_def)
  show "distinct (map fst (fst (compress_run L Z R recipes sample)))"
  proof (cases "py_iter recipes")
  case (Inl e)
  then show ?thesis by (simp add: compress_run_def)
next
  case (Inr items)
  obtain blobs' res where
    r: "compress_loop L Z R sample 0 items ([], \<lparr>idx_count = 0, idx_entries = []\<rparr>) =
        (blobs', res)"
    by (metis prod.exhaust)
  from compress_loop_names[OF r] have
    nm: "\<forall>k<length blobs'. \<exists>rest. map fst blobs' ! k = str_of_nat k @ CHR ''_'' # rest"
    by auto
  have "distinct (map fst blobs')"
    unfolding distinct_conv_nth
  proof (intro allI impI)
    fix j k
    assume j: "j < length (map fst blobs')" and k: "k < length (map fst blobs')" and ne: "j \<noteq> k"
    from nm j obtain rj where rj: "map fst blobs' ! j = str_of_nat j @ CHR ''_'' # rj" by auto
    from nm k obtain rk where rk: "map fst blobs' ! k = str_of_nat k @ CHR ''_'' # rk" by auto
    show "map fst blobs' ! j \<noteq> map fst blobs' ! k"
    proof
      assume "map fst blobs' ! j = map fst blobs' ! k"
      with rj rk have "digits_value (takeWhile is_digit (str_of_nat j @ CHR ''_'' # rj)) =
          digits_value (takeWhile is_digit (str_of_nat k @ CHR ''_'' # rk))" by simp
      with ne show False by (simp add: name_prefix)
    qed
  qed
  with Inr r show ?thesis by (simp add: compress_run_def)
  qed
qed

lemma compress_loop_index:
  assumes "compress_loop L Z R sample i rs (blobs, index) = (blobs', Inr index')"
  shows "\<exists>new. idx_entries index' = idx_entries index @ new \<and>
           idx_count index' = idx_count index + int (length new) \<and>
           map fst blobs' = map fst blobs @ map e_blob new \<and>
           length new = (if sample = 0 then length rs else min (length rs) (nat (sample - int i))) \<and>
           (\<forall>k<length new. \<exists>nm obj. process_recipe L Z R (i + k) (rs ! k) = Inr (nm, obj, new ! k))"
  using assms
proof (induction rs arbitrary: i blobs index)
  case Nil
  then show ?case by auto
next
  case (Cons r rs)
  show ?case
  proof (cases "sample \<noteq> 0 \<and> sample \<le> int i")
    case True
    with Cons.prems have "blobs' = blobs" "index' = index" by auto
    moreover from True have "nat (sample - int i) = 0" by simp
    ultimately show ?thesis using True by auto
  next
    case False
    show ?thesis
    proof (cases "process_recipe L Z R i r")
      case (Inl e)
      with False Cons.prems show ?thesis by auto
    next
      case (Inr triple)
      obtain nm obj ent where t: "triple = (nm, obj, ent)" by (cases triple)
      from process_recipe_name[OF Inr[unfolded t]] have eb: "e_blob ent = nm" by simp
      let ?index = "\<lparr>idx_count = idx_count index + 1, idx_entries = idx_entries index @ [ent]\<rparr>"
      have "compress_loop L Z R sample i (r # rs) (blobs, index) =
          compress_loop L Z R sample (Suc i) rs (blobs @ [(nm, obj)], ?index)"
        using False Inr t by auto
      with Cons.prems have
        "compress_loop L Z R sample (Suc i) rs (blobs @ [(nm, obj)], ?index) = (blobs', Inr index')"
        by simp
      from Cons.IH[OF this] obtain new where
        n1: "idx_entries index' = idx_entries ?index @ new" and
        n2: "idx_count index' = idx_count ?index + int (length new)" and
        n3: "map fst blobs' = map fst (blobs @ [(nm, obj)]) @ map e_blob new" and
        n4: "length new =
              (if sample = 0 then length rs else min (length rs) (nat (sample - int (Suc i))))" and
        n5: "\<forall>k<length new. \<exists>nm obj.
              process_recipe L Z R (Suc i + k) (rs ! k) = Inr (nm, obj, new ! k)"
        by blast
      have l: "length (ent # new) =
          (if sample = 0 then length (r # rs) else min (length (r # rs)) (nat (sample - int i)))"
      proof (cases "sample = 0")
        case True
        with n4 show ?thesis by simp
      next
        case ne: False
        with False have "int i < sample" by simp
        then have "nat (sample - int i) = Suc (nat (sample - int (Suc i)))" by simp
        with n4 ne show ?thesis by simp
      qed
      have p: "\<forall>k<length (ent # new). \<exists>nm obj.
          process_recipe L Z R (i + k) ((r # rs) ! k) = Inr (nm, obj, (ent # new) ! k)"
      proof (intro allI impI)
        fix k assume "k < length (ent # new)"
        then show "\<exists>nm obj.
            process_recipe L Z R (i + k) ((r # rs) ! k) = Inr (nm, obj, (ent # new) ! k)"
          using Inr t n5 by (cases k) auto
      qed
      have "idx_entries index' = idx_entries index @ (ent # new)" using n1 by simp
      moreover have "idx_count index' = idx_count index + int (length (ent # new))"
        using n2 by simp
      moreover have "map fst blobs' = map fst blobs @ map e_blob (ent # new)"
        using n3 eb by simp
      ultimately show ?thesis using l p by blast
    qed
  qed
qed

text \<open>
  C10. In the index that a run of the compression index builder writes, the count equals
  the length of the entries list, and the entries are, in the order of the input
  collection, the entries of the recipes processed, one for each: all recipes, or the
  first \<^verbatim>\<open>sample\<close> of them; the blob files written are those the entries name, in the
  same order.
\<close>

theorem index_count_and_order:
  assumes "compress_run L Z R recipes sample = (blobs, Inr index)"
  shows "idx_count index = int (length (idx_entries index)) \<and>
         map e_blob (idx_entries index) = map fst blobs \<and>
         (\<exists>items. py_iter recipes = Inr items \<and>
            length (idx_entries index) = processed_count sample (length items) \<and>
            (\<forall>k<length (idx_entries index). \<exists>nm obj.
               process_recipe L Z R k (items ! k) = Inr (nm, obj, idx_entries index ! k)))"
proof (cases "py_iter recipes")
  case (Inl e)
  with assms show ?thesis by (simp add: compress_run_def)
next
  case (Inr items)
  with assms have
    "compress_loop L Z R sample 0 items ([], \<lparr>idx_count = 0, idx_entries = []\<rparr>) =
       (blobs, Inr index)"
    by (simp add: compress_run_def)
  from compress_loop_index[OF this] obtain new where
    "idx_entries index = new" "idx_count index = int (length new)"
    "map fst blobs = map e_blob new"
    "length new = (if sample = 0 then length items else min (length items) (nat sample))"
    "\<forall>k<length new. \<exists>nm obj. process_recipe L Z R k (items ! k) = Inr (nm, obj, new ! k)"
    by auto
  with Inr show ?thesis by (simp add: processed_count_def)
qed

theorem index_count_and_order_witness:
  "compress_run egg_flour_lib stored_zlib no_remote colliding_recipes 0 =
     (colliding_blobs, Inr colliding_index) \<and>
   idx_count colliding_index = int (length (idx_entries colliding_index)) \<and>
   map e_blob (idx_entries colliding_index) = map fst colliding_blobs \<and>
   length (idx_entries colliding_index) = 2"
proof -
  from index_count_and_order[OF colliding_run]
  have "idx_count colliding_index = int (length (idx_entries colliding_index)) \<and>
        map e_blob (idx_entries colliding_index) = map fst colliding_blobs"
    by blast
  moreover have "length (idx_entries colliding_index) = 2" by (simp add: colliding_index_def)
  ultimately show ?thesis using colliding_run by simp
qed

end
